theory Spec2Isabelle
  imports Complex_Main
begin

unbundle bit_operations_syntax

section \<open>Python values used by mine.py\<close>

text \<open>
  The exceptions the program can raise: indexing an empty list (\<^verbatim>\<open>self.__chain[-1]\<close>)
  and converting an \<^verbatim>\<open>int\<close> that is too large to a \<^verbatim>\<open>float\<close>
  (\<^verbatim>\<open>self.target_seconds_per_block * 0.5\<close>).
\<close>

datatype py_error = IndexError | OverflowError

subsection \<open>\<^verbatim>\<open>str\<close> of an \<^verbatim>\<open>int\<close>\<close>

fun str_nat :: "nat \<Rightarrow> string" where
  "str_nat n =
     (if n < 10 then [''0123456789'' ! n]
      else str_nat (n div 10) @ [''0123456789'' ! (n mod 10)])"

declare str_nat.simps [simp del]

definition str_int :: "int \<Rightarrow> string" where
  "str_int i = (if i < 0 then CHR ''-'' # str_nat (nat (- i)) else str_nat (nat i))"

text \<open>
  \<^verbatim>\<open>previous_hash\<close> is the \<^verbatim>\<open>int\<close> 0 in the genesis block and a \<^verbatim>\<open>str\<close> in every
  mined block; \<^verbatim>\<open>str(...)\<close> is applied to it before hashing.
\<close>

datatype pyval = PInt int | PStr string

fun str_pyval :: "pyval \<Rightarrow> string" where
  "str_pyval (PInt i) = str_int i"
| "str_pyval (PStr s) = s"

subsection \<open>\<^verbatim>\<open>float\<close>: IEEE 754 binary64, round to nearest, ties to even\<close>

text \<open>
  A finite float is the rational it denotes; every operation computes the exact result
  and rounds it with \<open>fl\<close>. The sign of zero is not represented: it is invisible to
  \<^verbatim>\<open><\<close> and \<^verbatim>\<open>>\<close>, and \<^verbatim>\<open>time.time()\<close> does not return \<^verbatim>\<open>-0.0\<close>.
\<close>

datatype pyfloat = Fin rat | PInf | NInf | NaN

fun bit_length :: "nat \<Rightarrow> nat" where
  "bit_length n = (if n = 0 then 0 else Suc (bit_length (n div 2)))"

declare bit_length.simps [simp del]

text \<open>For \<open>0 < a\<close>: the exponent \<open>e\<close> with \<open>2 ^ e \<le> a < 2 ^ (e + 1)\<close>.\<close>

definition floor_log2 :: "rat \<Rightarrow> int" where
  "floor_log2 a =
     (if 1 \<le> a then int (bit_length (nat \<lfloor>a\<rfloor>)) - 1
      else - int (bit_length (nat (\<lceil>1 / a\<rceil> - 1))))"

definition pow2 :: "int \<Rightarrow> rat" where
  "pow2 e = (if 0 \<le> e then 2 ^ nat e else 1 / 2 ^ nat (- e))"

definition round_half_even :: "rat \<Rightarrow> int" where
  "round_half_even q =
     (let f = \<lfloor>q\<rfloor>; d = q - of_int f
      in if d < 1 / 2 then f else if 1 / 2 < d then f + 1
         else if even f then f else f + 1)"

text \<open>
  Rounding of an exact result: 53 significant bits, exponents from -1022 (below that
  the spacing stays \<open>2 ^ -1074\<close>: subnormals), overflow to infinity from \<open>2 ^ 1024\<close>.
\<close>

definition fl :: "rat \<Rightarrow> pyfloat" where
  "fl r =
     (if r = 0 then Fin 0
      else let a = \<bar>r\<bar>;
               e = max (floor_log2 a) (- 1022);
               u = pow2 (e - 52);
               v = of_int (round_half_even (a / u)) * u
           in if 2 ^ 1024 \<le> v then (if 0 < r then PInf else NInf)
              else Fin (if 0 < r then v else - v))"

fun fneg :: "pyfloat \<Rightarrow> pyfloat" where
  "fneg (Fin x) = Fin (- x)"
| "fneg PInf = NInf"
| "fneg NInf = PInf"
| "fneg NaN = NaN"

fun fadd :: "pyfloat \<Rightarrow> pyfloat \<Rightarrow> pyfloat" where
  "fadd (Fin x) (Fin y) = fl (x + y)"
| "fadd NaN _ = NaN"
| "fadd _ NaN = NaN"
| "fadd PInf NInf = NaN"
| "fadd NInf PInf = NaN"
| "fadd PInf _ = PInf"
| "fadd _ PInf = PInf"
| "fadd NInf _ = NInf"
| "fadd _ NInf = NInf"

definition fsub :: "pyfloat \<Rightarrow> pyfloat \<Rightarrow> pyfloat" where
  "fsub x y = fadd x (fneg y)"

fun fmul :: "pyfloat \<Rightarrow> pyfloat \<Rightarrow> pyfloat" where
  "fmul (Fin x) (Fin y) = fl (x * y)"
| "fmul NaN _ = NaN"
| "fmul _ NaN = NaN"
| "fmul (Fin x) PInf = (if x = 0 then NaN else if 0 < x then PInf else NInf)"
| "fmul (Fin x) NInf = (if x = 0 then NaN else if 0 < x then NInf else PInf)"
| "fmul PInf (Fin y) = (if y = 0 then NaN else if 0 < y then PInf else NInf)"
| "fmul NInf (Fin y) = (if y = 0 then NaN else if 0 < y then NInf else PInf)"
| "fmul PInf PInf = PInf"
| "fmul NInf NInf = PInf"
| "fmul PInf NInf = NInf"
| "fmul NInf PInf = NInf"

text \<open>\<^verbatim>\<open>x / 2\<close>: the \<^verbatim>\<open>int\<close> 2 becomes \<^verbatim>\<open>2.0\<close>, which is not zero.\<close>

fun fdiv2 :: "pyfloat \<Rightarrow> pyfloat" where
  "fdiv2 (Fin x) = fl (x / 2)"
| "fdiv2 x = x"

text \<open>\<^verbatim>\<open>x < y\<close>; \<^verbatim>\<open>x > y\<close> is \<open>flt y x\<close>. Every comparison with \<^verbatim>\<open>nan\<close> is false.\<close>

fun flt :: "pyfloat \<Rightarrow> pyfloat \<Rightarrow> bool" where
  "flt (Fin x) (Fin y) = (x < y)"
| "flt NaN _ = False"
| "flt _ NaN = False"
| "flt NInf NInf = False"
| "flt NInf _ = True"
| "flt _ NInf = False"
| "flt PInf _ = False"
| "flt _ PInf = True"

text \<open>
  The conversion behind \<^verbatim>\<open>int * float\<close>: correctly rounded, and
  \<^verbatim>\<open>OverflowError: int too large to convert to float\<close> when the rounded value is not finite.
\<close>

definition int_to_float :: "int \<Rightarrow> py_error + pyfloat" where
  "int_to_float n =
     (case fl (of_int n) of Fin r \<Rightarrow> Inr (Fin r) | _ \<Rightarrow> Inl OverflowError)"

subsection \<open>\<^verbatim>\<open>str\<close> of a \<^verbatim>\<open>float\<close>: the shortest decimal string that reads back as the same float\<close>

fun ndigits :: "nat \<Rightarrow> nat" where
  "ndigits n = (if n = 0 then 0 else Suc (ndigits (n div 10)))"

declare ndigits.simps [simp del]

text \<open>For \<open>0 < a\<close>: the exponent \<open>d\<close> with \<open>10 ^ d \<le> a < 10 ^ (d + 1)\<close>.\<close>

definition floor_log10 :: "rat \<Rightarrow> int" where
  "floor_log10 a =
     (if 1 \<le> a then int (ndigits (nat \<lfloor>a\<rfloor>)) - 1
      else - int (ndigits (nat (\<lceil>1 / a\<rceil> - 1))))"

definition pow10 :: "int \<Rightarrow> rat" where
  "pow10 e = (if 0 \<le> e then 10 ^ nat e else 1 / 10 ^ nat (- e))"

text \<open>
  The \<open>n\<close>-digit decimals on either side of \<open>a\<close> (leading digit at \<open>10 ^ d\<close>): the one
  that rounds to \<open>a\<close>, the nearer one when both do, the even one on a tie.
  The result \<open>(m, k)\<close> stands for \<open>m * 10 ^ k\<close>.
\<close>

definition repr_candidate :: "rat \<Rightarrow> int \<Rightarrow> nat \<Rightarrow> (nat \<times> int) option" where
  "repr_candidate a d n =
     (let k = d - int n + 1;
          s = pow10 k;
          lo = \<lfloor>a / s\<rfloor>;
          hi = lo + 1;
          ok_lo = (fl (of_int lo * s) = Fin a);
          ok_hi = (fl (of_int hi * s) = Fin a);
          dl = a - of_int lo * s;
          dh = of_int hi * s - a
      in if ok_lo \<and> (\<not> ok_hi \<or> dl < dh \<or> (dl = dh \<and> even lo)) then Some (nat lo, k)
         else if ok_hi then Some (nat hi, k)
         else None)"

fun shortest_digits :: "rat \<Rightarrow> int \<Rightarrow> nat list \<Rightarrow> (nat \<times> int) option" where
  "shortest_digits a d [] = None"
| "shortest_digits a d (n # ns) =
     (case repr_candidate a d n of
        Some c \<Rightarrow> Some c
      | None \<Rightarrow> shortest_digits a d ns)"

fun strip_zeros :: "nat \<Rightarrow> int \<Rightarrow> nat \<times> int" where
  "strip_zeros m k =
     (if m \<noteq> 0 \<and> m mod 10 = 0 then strip_zeros (m div 10) (k + 1) else (m, k))"

declare strip_zeros.simps [simp del]

text \<open>
  Layout of the digits \<open>ds\<close> of \<open>0.ds * 10 ^ decpt\<close>: positional when
  \<open>-4 < decpt \<le> 16\<close> (with \<^verbatim>\<open>.0\<close> added to a whole number), exponent form otherwise.
\<close>

definition format_repr :: "string \<Rightarrow> int \<Rightarrow> string" where
  "format_repr ds decpt =
     (let n = int (length ds)
      in if - 4 < decpt \<and> decpt \<le> 16 then
           (if decpt \<le> 0 then ''0.'' @ replicate (nat (- decpt)) CHR ''0'' @ ds
            else if n \<le> decpt then ds @ replicate (nat (decpt - n)) CHR ''0'' @ ''.0''
            else take (nat decpt) ds @ ''.'' @ drop (nat decpt) ds)
         else
           (let x = decpt - 1;
                mant = (if n = 1 then ds else take 1 ds @ ''.'' @ drop 1 ds);
                ex = str_nat (nat \<bar>x\<bar>)
            in mant @ ''e'' @ (if x < 0 then ''-'' else ''+'')
               @ (if length ex < 2 then CHR ''0'' # ex else ex)))"

definition str_float :: "pyfloat \<Rightarrow> string" where
  "str_float x =
     (case x of
        PInf \<Rightarrow> ''inf''
      | NInf \<Rightarrow> ''-inf''
      | NaN \<Rightarrow> ''nan''
      | Fin r \<Rightarrow>
          if r = 0 then ''0.0''
          else let a = \<bar>r\<bar>
               in (case shortest_digits a (floor_log10 a) [1..<18] of
                     None \<Rightarrow> ''''
                   | Some (m, k) \<Rightarrow>
                       (let (m', k') = strip_zeros m k;
                            ds = str_nat m'
                        in (if r < 0 then ''-'' else '''')
                           @ format_repr ds (int (length ds) + k'))))"

subsection \<open>\<^verbatim>\<open>hashlib.sha256(...).hexdigest()\<close>: SHA-256 as in FIPS 180-4\<close>

text \<open>A 32-bit word is a natural number below \<open>2 ^ 32\<close>; sums are cut to 32 bits.\<close>

definition rotr :: "nat \<Rightarrow> nat \<Rightarrow> nat" where
  "rotr n x = drop_bit n x + push_bit (32 - n) (take_bit n x)"

definition add32 :: "nat \<Rightarrow> nat \<Rightarrow> nat" where
  "add32 x y = take_bit 32 (x + y)"

definition not32 :: "nat \<Rightarrow> nat" where
  "not32 x = x XOR 4294967295"

definition ch :: "nat \<Rightarrow> nat \<Rightarrow> nat \<Rightarrow> nat" where
  "ch x y z = (x AND y) XOR (not32 x AND z)"

definition maj :: "nat \<Rightarrow> nat \<Rightarrow> nat \<Rightarrow> nat" where
  "maj x y z = (x AND y) XOR (x AND z) XOR (y AND z)"

definition bsig0 :: "nat \<Rightarrow> nat" where
  "bsig0 x = rotr 2 x XOR rotr 13 x XOR rotr 22 x"

definition bsig1 :: "nat \<Rightarrow> nat" where
  "bsig1 x = rotr 6 x XOR rotr 11 x XOR rotr 25 x"

definition ssig0 :: "nat \<Rightarrow> nat" where
  "ssig0 x = rotr 7 x XOR rotr 18 x XOR drop_bit 3 x"

definition ssig1 :: "nat \<Rightarrow> nat" where
  "ssig1 x = rotr 17 x XOR rotr 19 x XOR drop_bit 10 x"

definition sha_k :: "nat list" where
  "sha_k =
    [1116352408, 1899447441, 3049323471, 3921009573, 961987163, 1508970993,
     2453635748, 2870763221, 3624381080, 310598401, 607225278, 1426881987,
     1925078388, 2162078206, 2614888103, 3248222580, 3835390401, 4022224774,
     264347078, 604807628, 770255983, 1249150122, 1555081692, 1996064986,
     2554220882, 2821834349, 2952996808, 3210313671, 3336571891, 3584528711,
     113926993, 338241895, 666307205, 773529912, 1294757372, 1396182291,
     1695183700, 1986661051, 2177026350, 2456956037, 2730485921, 2820302411,
     3259730800, 3345764771, 3516065817, 3600352804, 4094571909, 275423344,
     430227734, 506948616, 659060556, 883997877, 958139571, 1322822218,
     1537002063, 1747873779, 1955562222, 2024104815, 2227730452, 2361852424,
     2428436474, 2756734187, 3204031479, 3329325298]"

definition sha_h0 :: "nat list" where
  "sha_h0 =
    [1779033703, 3144134277, 1013904242, 2773480762, 1359893119, 2600822924,
     528734635, 1541459225]"

text \<open>
  The message schedule after the first 16 words; \<open>win\<close> holds the 16 most recent
  words, newest first.
\<close>

definition next_word :: "nat list \<Rightarrow> nat" where
  "next_word win = add32 (add32 (add32 (ssig1 (win ! 1)) (win ! 6)) (ssig0 (win ! 14))) (win ! 15)"

fun schedule :: "nat \<Rightarrow> nat list \<Rightarrow> nat list" where
  "schedule 0 win = []"
| "schedule (Suc n) win = next_word win # schedule n (next_word win # take 15 win)"

fun round_step :: "nat list \<Rightarrow> nat \<times> nat \<Rightarrow> nat list" where
  "round_step [a, b, c, d, e, f, g, h] (k, w) =
     (let t1 = add32 (add32 (add32 (add32 h (bsig1 e)) (ch e f g)) k) w;
          t2 = add32 (bsig0 a) (maj a b c)
      in [add32 t1 t2, a, b, c, add32 d t1, e, f, g])"
| "round_step st _ = st"

definition compress :: "nat list \<Rightarrow> nat list \<Rightarrow> nat list" where
  "compress hs blk =
     map2 add32 hs (foldl round_step hs (zip sha_k (blk @ schedule 48 (rev blk))))"

fun be_words :: "nat list \<Rightarrow> nat list" where
  "be_words (a # b # c # d # bs) = (((a * 256 + b) * 256 + c) * 256 + d) # be_words bs"
| "be_words _ = []"

fun blocks16 :: "nat \<Rightarrow> nat list \<Rightarrow> nat list list" where
  "blocks16 0 ws = []"
| "blocks16 (Suc n) ws = take 16 ws # blocks16 n (drop 16 ws)"

definition be_bytes8 :: "nat \<Rightarrow> nat list" where
  "be_bytes8 v = map (\<lambda>i. (v div 256 ^ i) mod 256) [7, 6, 5, 4, 3, 2, 1, 0]"

definition sha_pad :: "nat list \<Rightarrow> nat list" where
  "sha_pad bs =
     bs @ [128] @ replicate ((119 - length bs mod 64) mod 64) 0 @ be_bytes8 (8 * length bs)"

definition hex_digit :: "nat \<Rightarrow> char" where
  "hex_digit d = ''0123456789abcdef'' ! d"

definition hex_word :: "nat \<Rightarrow> string" where
  "hex_word w = map (\<lambda>i. hex_digit ((w div 16 ^ i) mod 16)) [7, 6, 5, 4, 3, 2, 1, 0]"

definition sha256_words :: "nat list \<Rightarrow> nat list" where
  "sha256_words ws = foldl compress sha_h0 (blocks16 (length ws div 16) ws)"

text \<open>
  The digest of \<^verbatim>\<open>s.encode("utf-8")\<close>. The strings hashed by the program are ASCII,
  so the encoding is the list of their character codes.
\<close>

definition sha256_hexdigest :: "string \<Rightarrow> string" where
  "sha256_hexdigest s =
     concat (map hex_word (sha256_words (be_words (sha_pad (map of_char s)))))"

section \<open>class Block\<close>

record block =
  index :: int
  nonce :: int
  previous_hash :: pyval
  timestamp :: pyfloat

text \<open>\<^verbatim>\<open>Block.__init__\<close>; \<open>now\<close> is what \<^verbatim>\<open>time.time()\<close> returns in it.\<close>

definition Block :: "int \<Rightarrow> int \<Rightarrow> pyval \<Rightarrow> pyfloat \<Rightarrow> block" where
  "Block i n p now = \<lparr>index = i, nonce = n, previous_hash = p, timestamp = now\<rparr>"

text \<open>\<^verbatim>\<open>Block.hash\<close>\<close>

definition hash :: "block \<Rightarrow> string" where
  "hash b =
     sha256_hexdigest
       (str_int (index b) @ str_float (timestamp b) @ str_int (nonce b)
        @ str_pyval (previous_hash b))"

definition lstrip0 :: "string \<Rightarrow> string" where
  "lstrip0 s = dropWhile (\<lambda>c. c = CHR ''0'') s"

text \<open>\<^verbatim>\<open>Block.difficulty\<close>: the number of leading zeros of the hash.\<close>

definition block_difficulty :: "block \<Rightarrow> int" where
  "block_difficulty b = int (length (hash b)) - int (length (lstrip0 (hash b)))"

section \<open>class Blockchain\<close>

record blockchain =
  chain :: "block list"
  target_seconds_per_block :: int

text \<open>\<^verbatim>\<open>Blockchain.__init__\<close>; \<open>now\<close> is the clock reading of the genesis block.\<close>

definition Blockchain :: "int \<Rightarrow> pyfloat \<Rightarrow> blockchain" where
  "Blockchain target now =
     \<lparr>chain = [Block 0 0 (PInt 0) now], target_seconds_per_block = target\<rparr>"

text \<open>\<^verbatim>\<open>Blockchain.last_block\<close>: \<^verbatim>\<open>self.__chain[-1]\<close>\<close>

definition last_block :: "blockchain \<Rightarrow> py_error + block" where
  "last_block bc = (if chain bc = [] then Inl IndexError else Inr (last (chain bc)))"

text \<open>
  \<^verbatim>\<open>Blockchain.difficulty\<close>. The indices -1, -2 and -3 are in range after the length
  test. The product \<^verbatim>\<open>self.target_seconds_per_block * 0.5\<close> is the first thing that can
  raise.
\<close>

definition avg_time_to_mine :: "pyfloat \<Rightarrow> pyfloat \<Rightarrow> pyfloat \<Rightarrow> pyfloat" where
  "avg_time_to_mine t1 t2 t3 = fdiv2 (fadd (fsub t1 t2) (fsub t2 t3))"

definition difficulty :: "blockchain \<Rightarrow> py_error + int" where
  "difficulty bc =
     (let n = length (chain bc)
      in if n < 3 then Inr 1
         else
           let avg = avg_time_to_mine (timestamp (chain bc ! (n - 1)))
                       (timestamp (chain bc ! (n - 2))) (timestamp (chain bc ! (n - 3)));
               d = block_difficulty (chain bc ! (n - 1))
           in case int_to_float (target_seconds_per_block bc) of
                Inl err \<Rightarrow> Inl err
              | Inr t \<Rightarrow>
                  if flt avg (fmul t (Fin (1 / 2))) then Inr (d + 1)
                  else if flt (fmul t (Fin (3 / 2))) avg then Inr (d - 1)
                  else Inr d)"

text \<open>
  \<^verbatim>\<open>Blockchain.to_table\<close>: one row (number, nonce, hash) per block, one more for the
  proposed block, and the caption.
\<close>

record table =
  rows :: "(string \<times> string \<times> string) list"
  caption :: string

definition to_table :: "blockchain \<Rightarrow> block option \<Rightarrow> py_error + table" where
  "to_table bc new_block =
     (let rs = map (\<lambda>(block_num, b). (str_int (int block_num), str_int (nonce b), hash b))
                 (enumerate 0 (chain bc));
          rs' = (case new_block of
                   None \<Rightarrow> rs
                 | Some nb \<Rightarrow>
                     rs @ [(str_int (int (length (chain bc))), str_int (nonce nb), hash nb)])
      in case difficulty bc of
           Inl err \<Rightarrow> Inl err
         | Inr d \<Rightarrow> Inr \<lparr>rows = rs', caption = ''Difficulty: '' @ str_int d\<rparr>)"

text \<open>\<^verbatim>\<open>s.startswith(p)\<close>\<close>

definition startswith :: "string \<Rightarrow> string \<Rightarrow> bool" where
  "startswith s p = (take (length p) s = p)"

text \<open>
  The loop of \<^verbatim>\<open>Blockchain.mine\<close>. \<open>clock\<close> is the sequence of values that
  \<^verbatim>\<open>time.time()\<close> returns, \<open>k\<close> the number of readings taken so far; \<open>shown\<close> collects
  the tables passed to \<^verbatim>\<open>live_.update\<close>. The result is the new chain, the returned
  hash, the tables shown and the number of clock readings taken; \<open>None\<close> is a loop
  that never ends.
\<close>

type_synonym mined = "blockchain \<times> string \<times> table list \<times> nat"

partial_function (option) mine_loop ::
  "(nat \<Rightarrow> pyfloat) \<Rightarrow> blockchain \<Rightarrow> string \<Rightarrow> nat \<Rightarrow> int \<Rightarrow> table list
     \<Rightarrow> (py_error + mined) option" where
  "mine_loop clock bc prefix_str k nonce' shown =
     (case last_block bc of
        Inl err \<Rightarrow> Some (Inl err)
      | Inr lb \<Rightarrow>
          let proposed_block = Block (int (length (chain bc))) nonce' (PStr (hash lb)) (clock k)
          in (case to_table bc (Some proposed_block) of
                Inl err \<Rightarrow> Some (Inl err)
              | Inr t \<Rightarrow>
                  if startswith (hash proposed_block) prefix_str
                  then Some (Inr (bc\<lparr>chain := chain bc @ [proposed_block]\<rparr>,
                                  hash proposed_block, shown @ [t], Suc k))
                  else mine_loop clock bc prefix_str (Suc k) (nonce' + 1) (shown @ [t])))"

text \<open>\<^verbatim>\<open>Blockchain.mine\<close>; \<^verbatim>\<open>'0' * n\<close> is the empty string for \<open>n \<le> 0\<close>.\<close>

definition mine :: "(nat \<Rightarrow> pyfloat) \<Rightarrow> nat \<Rightarrow> blockchain \<Rightarrow> (py_error + mined) option" where
  "mine clock k bc =
     (case difficulty bc of
        Inl err \<Rightarrow> Some (Inl err)
      | Inr d \<Rightarrow> mine_loop clock bc (replicate (nat d) CHR ''0'') k 0 [])"

text \<open>
  The states of a run: the chain is constructed at the first clock reading, then
  \<^verbatim>\<open>mine\<close> is called again and again; each call that returns gives a state.
\<close>

inductive reachable :: "(nat \<Rightarrow> pyfloat) \<Rightarrow> int \<Rightarrow> nat \<Rightarrow> blockchain \<Rightarrow> bool"
  for clock :: "nat \<Rightarrow> pyfloat" and target :: int where
  constructed: "reachable clock target 1 (Blockchain target (clock 0))"
| mined: "reachable clock target k bc \<Longrightarrow> mine clock k bc = Some (Inr (bc', h, shown, k'))
          \<Longrightarrow> reachable clock target k' bc'"
section \<open>Block objects in the store\<close>

text \<open>
  A \<^verbatim>\<open>Block\<close> is a Python object: its four attributes could be assigned again at any
  time, and a property could read the clock. To state what the operations of the class
  do to the objects and to the clock, the objects allocated so far are kept in a store,
  in the order of their allocation, with the number of \<^verbatim>\<open>time.time()\<close> readings taken so
  far. An object is referred to by its position; an operation takes the store and
  returns its result together with the store it leaves.
\<close>

record store =
  objects :: "block list"
  readings :: nat

text \<open>
  \<^verbatim>\<open>Block.__init__\<close>: the three arguments and one reading of the clock are assigned to
  the attributes of the new object.
\<close>

definition Block_init ::
  "(nat \<Rightarrow> pyfloat) \<Rightarrow> int \<Rightarrow> int \<Rightarrow> pyval \<Rightarrow> store \<Rightarrow> nat \<times> store" where
  "Block_init clock i n p s =
     (length (objects s),
      \<lparr>objects = objects s
                  @ [\<lparr>index = i, nonce = n, previous_hash = p,
                      timestamp = clock (readings s)\<rparr>],
       readings = Suc (readings s)\<rparr>)"

text \<open>\<^verbatim>\<open>Block.hash\<close>: the attributes of \<^verbatim>\<open>self\<close> are read, nothing is assigned.\<close>

definition Block_hash :: "nat \<Rightarrow> store \<Rightarrow> string \<times> store" where
  "Block_hash self s =
     (sha256_hexdigest
        (str_int (index (objects s ! self)) @ str_float (timestamp (objects s ! self))
         @ str_int (nonce (objects s ! self)) @ str_pyval (previous_hash (objects s ! self))),
      s)"

text \<open>\<^verbatim>\<open>Block.difficulty\<close>: \<^verbatim>\<open>self.hash\<close> is evaluated twice.\<close>

definition Block_difficulty :: "nat \<Rightarrow> store \<Rightarrow> int \<times> store" where
  "Block_difficulty self s =
     (let (h1, s1) = Block_hash self s;
          (h2, s2) = Block_hash self s1
      in (int (length h1) - int (length (lstrip0 h2)), s2))"

text \<open>
  What a program can do to the store through the class: any sequence of constructions
  and of evaluations of the two properties, on any objects and with any arguments.
  \<^verbatim>\<open>Blockchain\<close> uses its blocks in no other way, apart from reading \<^verbatim>\<open>nonce\<close> and
  \<^verbatim>\<open>timestamp\<close>; the module has no assignment to an attribute of a \<^verbatim>\<open>Block\<close> outside
  \<^verbatim>\<open>Block.__init__\<close> and no call of \<^verbatim>\<open>time.time()\<close> outside it.
\<close>

inductive run :: "(nat \<Rightarrow> pyfloat) \<Rightarrow> store \<Rightarrow> store \<Rightarrow> bool"
  for clock :: "nat \<Rightarrow> pyfloat" where
  run_none: "run clock s s"
| run_init: "run clock s s' \<Longrightarrow> run clock s (snd (Block_init clock i n p s'))"
| run_hash: "run clock s s' \<Longrightarrow> run clock s (snd (Block_hash self s'))"
| run_difficulty: "run clock s s' \<Longrightarrow> run clock s (snd (Block_difficulty self s'))"


section \<open>Invariant and example states\<close>

text \<open>The invariant of the block sequence: genesis nonce, positions, hash links.\<close>

definition linked :: "block list \<Rightarrow> bool" where
  "linked bs \<longleftrightarrow>
     bs \<noteq> [] \<and> nonce (bs ! 0) = 0
     \<and> (\<forall>i<length bs. index (bs ! i) = int i)
     \<and> (\<forall>i. 1 \<le> i \<and> i < length bs \<longrightarrow> previous_hash (bs ! i) = PStr (hash (bs ! (i - 1))))"

text \<open>
  Three blocks five seconds apart; the same with the middle block two seconds later;
  the same with the middle block stamped on 5 November 1989 (a clock that was set back
  and corrected again), at a reading with the odd multiple \<open>3 / 2 ^ 23\<close> of the float
  spacing there; three blocks one second apart.
\<close>

definition steady :: blockchain where
  "steady = \<lparr>chain = [Block 0 0 (PInt 0) (Fin 1700000000),
                       Block 1 0 (PStr ''00'') (Fin 1700000005),
                       Block 2 0 (PStr ''00'') (Fin 1700000010)],
             target_seconds_per_block = 10\<rparr>"

definition steady' :: blockchain where
  "steady' = \<lparr>chain = [Block 0 0 (PInt 0) (Fin 1700000000),
                        Block 1 0 (PStr ''00'') (Fin 1700000007),
                        Block 2 0 (PStr ''00'') (Fin 1700000010)],
              target_seconds_per_block = 10\<rparr>"

definition setback :: blockchain where
  "setback = \<lparr>chain = [Block 0 0 (PInt 0) (Fin 1700000000),
                        Block 1 0 (PStr ''00'') (Fin (626258181 + 3 / 2 ^ 23)),
                        Block 2 0 (PStr ''00'') (Fin 1700000010)],
              target_seconds_per_block = 10\<rparr>"

definition hasty :: blockchain where
  "hasty = \<lparr>chain = [Block 0 0 (PInt 0) (Fin 1700000000),
                      Block 1 0 (PStr ''00'') (Fin 1700000001),
                      Block 2 0 (PStr ''00'') (Fin 1700000002)],
            target_seconds_per_block = 10\<rparr>"

text \<open>
  A clock for a run: the constructor of the chain reads 1700000000, the next two
  readings are 1700000001 and 1700000018, and every later one comes 16 seconds after
  the one before.
\<close>

definition demo_clock :: "nat \<Rightarrow> pyfloat" where
  "demo_clock k =
     Fin (if k = 0 then 1700000000 else if k = 1 then 1700000001
          else 1700000018 + 16 * (of_nat k - 2))"

text \<open>The store after the genesis block is constructed, and after one more block.\<close>

definition store1 :: store where
  "store1 = snd (Block_init demo_clock 0 0 (PInt 0) \<lparr>objects = [], readings = 0\<rparr>)"

definition store2 :: store where
  "store2 = snd (Block_init demo_clock 1 0 (PStr ''00'') store1)"
section \<open>Floating-point facts\<close>

lemma bit_length_le: "n < 2 ^ k \<Longrightarrow> bit_length n \<le> k"
proof (induction k arbitrary: n)
  case 0
  then show ?case by (simp add: bit_length.simps)
next
  case (Suc k)
  then have "n div 2 < 2 ^ k" by simp
  from Suc.IH [OF this] show ?case
    by (subst bit_length.simps) simp
qed

lemma round_half_even_of_int: "round_half_even (of_int z) = z"
  by (simp add: round_half_even_def)

lemma fl_minus: "fl (- r) = fneg (fl r)"
  by (simp add: fl_def Let_def)

lemma fl_of_nat_exact:
  assumes "n < 2 ^ 53"
  shows "fl (of_nat n) = Fin (of_nat n)"
proof (cases "n = 0")
  case True
  then show ?thesis by (simp add: fl_def)
next
  case False
  then have pos: "0 < n" by simp
  define k where "k = bit_length n"
  have k53: "k \<le> 53" unfolding k_def using assms by (rule bit_length_le)
  have kpos: "0 < k" unfolding k_def using pos by (subst bit_length.simps) simp
  have a1: "(1::rat) \<le> of_nat n" using pos by simp
  have e: "floor_log2 (of_nat n) = int k - 1"
    using a1 by (simp add: floor_log2_def k_def)
  have mx: "max (int k - 1) (- 1022) = int k - 1" using kpos by simp
  have u: "pow2 (int k - 1 - 52) = 1 / 2 ^ (53 - k)"
  proof (cases "k = 53")
    case True
    then show ?thesis by (simp add: pow2_def)
  next
    case False
    with k53 have "k < 53" by simp
    then have "nat (- (int k - 1 - 52)) = 53 - k" by simp
    with \<open>k < 53\<close> show ?thesis by (simp add: pow2_def)
  qed
  have q: "(of_nat n :: rat) / (1 / 2 ^ (53 - k)) = of_int (int n * 2 ^ (53 - k))"
    by simp
  have v: "of_int (round_half_even ((of_nat n :: rat) / (1 / 2 ^ (53 - k)))) * (1 / 2 ^ (53 - k))
            = (of_nat n :: rat)"
    unfolding q round_half_even_of_int by simp
  have "(of_nat n :: rat) < of_nat (2 ^ 53)"
    using assms unfolding of_nat_less_iff .
  also have "\<dots> < 2 ^ 1024" by simp
  finally have small: "\<not> (2 :: rat) ^ 1024 \<le> of_nat n" by simp
  have "fl (of_nat n) =
          (if (of_nat n :: rat) = 0 then Fin 0
           else if 2 ^ 1024 \<le> (of_nat n :: rat) then (if (0::rat) < of_nat n then PInf else NInf)
           else Fin (if (0::rat) < of_nat n then of_nat n else - of_nat n))"
    by (simp only: fl_def Let_def abs_of_nat e mx u v)
  with pos small show ?thesis by simp
qed

lemma fl_numeral: "numeral w < (2::nat) ^ 53 \<Longrightarrow> fl (numeral w) = Fin (numeral w)"
  using fl_of_nat_exact [of "numeral w"] by simp

lemma fl_neg_numeral: "numeral w < (2::nat) ^ 53 \<Longrightarrow> fl (- numeral w) = Fin (- numeral w)"
  by (simp add: fl_minus fl_numeral)

lemma fl_zero: "fl 0 = Fin 0" by (simp add: fl_def)
lemma fl_one: "fl 1 = Fin 1" using fl_of_nat_exact [of 1] by simp

lemma fl_of_nat_round:
  assumes "bit_length n = 53 + s" and "0 < s"
    and "of_int (round_half_even (of_nat n / 2 ^ s)) * (2::rat) ^ s < 2 ^ 1024"
  shows "fl (of_nat n) = Fin (of_int (round_half_even (of_nat n / 2 ^ s)) * 2 ^ s)"
proof -
  have pos: "0 < n"
  proof (rule ccontr)
    assume "\<not> 0 < n"
    then have "bit_length n = 0" by (simp add: bit_length.simps)
    with assms show False by simp
  qed
  have a1: "(1::rat) \<le> of_nat n" using pos by simp
  have e: "floor_log2 (of_nat n) = int s + 52"
    using a1 assms(1) by (simp add: floor_log2_def)
  have mx: "max (int s + 52) (- 1022) = int s + 52" by simp
  have u: "pow2 (int s + 52 - 52) = 2 ^ s" by (simp add: pow2_def)
  let ?v = "of_int (round_half_even (of_nat n / 2 ^ s)) * (2::rat) ^ s"
  have "fl (of_nat n) =
          (if (of_nat n :: rat) = 0 then Fin 0
           else if 2 ^ 1024 \<le> ?v then (if (0::rat) < of_nat n then PInf else NInf)
           else Fin (if (0::rat) < of_nat n then ?v else - ?v))"
    by (simp only: fl_def Let_def abs_of_nat e mx u)
  with pos assms(3) show ?thesis by simp
qed

text \<open>The bit length brackets its argument, so \<open>floor_log2\<close> is the exponent it is meant to be.\<close>

lemma bit_length_upper: "n < 2 ^ bit_length n"
proof (induction n rule: bit_length.induct)
  case (1 n)
  show ?case
  proof (cases "n = 0")
    case True
    then show ?thesis by simp
  next
    case False
    from 1 [OF False] have "n div 2 < 2 ^ bit_length (n div 2)" .
    then have "n < 2 * 2 ^ bit_length (n div 2)" by linarith
    with False show ?thesis by (subst bit_length.simps) simp
  qed
qed

lemma bit_length_lower: "0 < n \<Longrightarrow> 2 ^ (bit_length n - 1) \<le> n"
proof (induction n rule: bit_length.induct)
  case (1 n)
  then have n0: "n \<noteq> 0" by simp
  show ?case
  proof (cases "n div 2 = 0")
    case True
    then have "bit_length (n div 2) = 0" by (simp add: bit_length.simps)
    with n0 have "bit_length n = 1" by (subst bit_length.simps) simp
    with 1(2) show ?thesis by simp
  next
    case False
    then have pos: "0 < n div 2" by simp
    from 1(1) [OF n0 pos] have ih: "2 ^ (bit_length (n div 2) - 1) \<le> n div 2" .
    have bpos: "0 < bit_length (n div 2)" using False by (subst bit_length.simps) simp
    have "bit_length n = Suc (bit_length (n div 2))" using n0 by (subst bit_length.simps) simp
    then have "(2::nat) ^ (bit_length n - 1) = 2 * 2 ^ (bit_length (n div 2) - 1)"
      using bpos by (cases "bit_length (n div 2)") simp_all
    also have "\<dots> \<le> 2 * (n div 2)" using ih by simp
    also have "\<dots> \<le> n" by simp
    finally show ?thesis .
  qed
qed

text \<open>\<open>pow2\<close> is the integer power of 2.\<close>

lemma pow2_powi: "pow2 e = 2 powi e"
  by (simp add: pow2_def power_int_def field_simps)

lemma floor_log2_le:
  assumes "0 < a"
  shows "2 powi (floor_log2 a) \<le> a"
proof (cases "1 \<le> a")
  case True
  define n where "n = nat \<lfloor>a\<rfloor>"
  have n1: "0 < n" using True unfolding n_def by simp
  have bpos: "0 < bit_length n" using n1 by (subst bit_length.simps) simp
  have "floor_log2 a = int (bit_length n) - 1" using True by (simp add: floor_log2_def n_def)
  also have "\<dots> = int (bit_length n - 1)" using bpos by simp
  finally have "(2::rat) powi (floor_log2 a) = 2 ^ (bit_length n - 1)" by simp
  also have "\<dots> = of_nat (2 ^ (bit_length n - 1))" by simp
  also have "\<dots> \<le> of_nat n" using bit_length_lower [OF n1] unfolding of_nat_le_iff .
  also have "\<dots> = of_int \<lfloor>a\<rfloor>" using True unfolding n_def by simp
  also have "\<dots> \<le> a" by simp
  finally show ?thesis .
next
  case False
  define n where "n = nat (\<lceil>1 / a\<rceil> - 1)"
  define b where "b = bit_length n"
  have inv: "1 < 1 / a" using False assms by simp
  then have c: "1 \<le> \<lceil>1 / a\<rceil> - 1" by linarith
  have "int n < int (2 ^ b)" unfolding b_def using bit_length_upper [of n] by linarith
  then have "\<lceil>1 / a\<rceil> - 1 < 2 ^ b" using c assms unfolding n_def by simp
  then have "\<lceil>1 / a\<rceil> \<le> 2 ^ b" by simp
  then have "1 / a \<le> of_int (2 ^ b)" by (simp only: ceiling_le_iff)
  then have "1 / a \<le> 2 ^ b" by simp
  then have "1 \<le> 2 ^ b * a" using assms by (simp add: field_simps)
  then have "1 / 2 ^ b \<le> a" by (simp add: field_simps)
  moreover have "floor_log2 a = - int b" using False by (simp add: floor_log2_def n_def b_def)
  ultimately show ?thesis by (simp add: power_int_minus field_simps)
qed

lemma fl_ge1:
  assumes "1 \<le> r" and "bit_length (nat \<lfloor>r\<rfloor>) = k"
  shows "fl r = (if 2 ^ 1024 \<le> of_int (round_half_even (r / pow2 (int k - 53))) * pow2 (int k - 53)
                 then PInf
                 else Fin (of_int (round_half_even (r / pow2 (int k - 53))) * pow2 (int k - 53)))"
proof -
  have pos: "0 < r" and nz: "r \<noteq> 0" and ab: "\<bar>r\<bar> = r" using assms(1) by simp_all
  have "0 < nat \<lfloor>r\<rfloor>" using assms(1) by simp
  then have kpos: "0 < k" using assms(2) by (subst (asm) bit_length.simps) auto
  have e: "floor_log2 r = int k - 1" using assms by (simp add: floor_log2_def)
  have mx: "max (int k - 1) (- 1022) = int k - 1" using kpos by simp
  have u: "int k - 1 - 52 = int k - 53" by simp
  show ?thesis
    using pos nz by (simp only: fl_def Let_def ab e mx u if_True if_False)
qed

lemma fl_dyadic_exact:
  assumes "m < 2 ^ 53" and "- 1074 \<le> j" and "j \<le> 971"
  shows "fl (of_nat m * pow2 j) = Fin (of_nat m * pow2 j)"
proof (cases "m = 0")
  case True
  then show ?thesis by (simp add: fl_def)
next
  case False
  define a :: rat where "a = of_nat m * 2 powi j"
  have apos: "0 < a" using False unfolding a_def by simp
  define E where "E = max (floor_log2 a) (- 1022)"
  have "a < 2 ^ 53 * 2 powi j"
    unfolding a_def using assms(1) by (simp add: of_nat_less_numeral_power_cancel_iff)
  also have "\<dots> = 2 powi (53 + j)" by (simp add: power_int_add)
  finally have up: "a < 2 powi (53 + j)" .
  have "2 powi (floor_log2 a) < (2::rat) powi (53 + j)"
    using floor_log2_le [OF apos] up by simp
  then have "floor_log2 a < 53 + j"
    using power_int_increasing [of "53 + j" "floor_log2 a" "2::rat"] by (cases "floor_log2 a < 53 + j") simp_all
  then have El: "E \<le> j + 52" unfolding E_def using assms(2) by simp
  define d where "d = nat (j + 52 - E)"
  have dj: "j = int d + (E - 52)" unfolding d_def using El by simp
  have "2 powi j = (2::rat) ^ d * 2 powi (E - 52)"
    by (subst dj) (simp add: power_int_add)
  then have av: "a = of_int (int m * 2 ^ d) * 2 powi (E - 52)" unfolding a_def by simp
  have q: "a / 2 powi (E - 52) = of_int (int m * 2 ^ d)" unfolding av by simp
  have v: "of_int (round_half_even (a / 2 powi (E - 52))) * 2 powi (E - 52) = a"
    unfolding q round_half_even_of_int av [symmetric] ..
  have "a < 2 powi (53 + j)" by (rule up)
  also have "\<dots> \<le> 2 powi 1024" using assms(3) by (intro power_int_increasing) simp_all
  finally have small: "\<not> 2 ^ 1024 \<le> a" by simp
  have "fl a = (if 2 ^ 1024 \<le> a then (if 0 < a then PInf else NInf) else Fin (if 0 < a then a else - a))"
    using apos by (simp only: fl_def Let_def pow2_powi abs_of_pos [OF apos] E_def [symmetric] v) simp
  with apos small have "fl a = Fin a" by simp
  then show ?thesis unfolding a_def pow2_powi .
qed

lemma round_half_even_ge: "\<lfloor>q\<rfloor> \<le> round_half_even q"
  by (simp add: round_half_even_def Let_def)

lemma fl_of_nat_overflow:
  assumes "2 ^ 1024 \<le> n"
  shows "fl (of_nat n) = PInf"
proof -
  define k where "k = bit_length n"
  have lt: "(2::nat) ^ 1024 < 2 ^ k"
    using assms bit_length_upper [of n] unfolding k_def by linarith
  have k: "1024 < k" by (rule power_less_imp_less_exp [OF _ lt]) simp
  define s where "s = k - 53"
  have ks: "k = 53 + s" and ks1: "k - 1 = 52 + s" using k unfolding s_def by simp_all
  have npos: "0 < n" using assms by (cases "n = 0") simp_all
  have low: "2 ^ 52 * 2 ^ s \<le> n"
    using bit_length_lower [OF npos] unfolding k_def [symmetric] ks1 by (simp add: power_add)
  have "(2::rat) ^ 52 * 2 ^ s = of_nat (2 ^ 52 * 2 ^ s)" by simp
  also have "\<dots> \<le> of_nat n" using low unfolding of_nat_le_iff .
  finally have "(2::rat) ^ 52 \<le> of_nat n / 2 ^ s" by (simp add: field_simps)
  then have "of_int (2 ^ 52) \<le> (of_nat n :: rat) / 2 ^ s" by simp
  then have "2 ^ 52 \<le> \<lfloor>(of_nat n :: rat) / 2 ^ s\<rfloor>" by (simp only: le_floor_iff)
  then have r: "2 ^ 52 \<le> round_half_even (of_nat n / 2 ^ s)"
    using round_half_even_ge [of "of_nat n / 2 ^ s"] by linarith
  have "(2::rat) ^ 1024 \<le> 2 ^ (52 + s)" using k ks by (intro power_increasing) simp_all
  also have "\<dots> = of_int (2 ^ 52) * 2 ^ s" by (simp add: power_add)
  also have "\<dots> \<le> of_int (round_half_even (of_nat n / 2 ^ s)) * 2 ^ s"
    using r by (intro mult_right_mono) (simp_all only: of_int_le_iff zero_le_power zero_le_numeral)
  finally have big: "(2::rat) ^ 1024 \<le> of_int (round_half_even (of_nat n / 2 ^ s)) * 2 ^ s" .
  have p: "pow2 (int k - 53) = 2 ^ s" unfolding ks by (simp add: pow2_def)
  have "bit_length (nat \<lfloor>(of_nat n :: rat)\<rfloor>) = k" unfolding k_def by simp
  from fl_ge1 [OF _ this] npos big show ?thesis unfolding p by simp
qed

lemma int_to_float_overflow: "2 ^ 1024 \<le> n \<Longrightarrow> int_to_float n = Inl OverflowError"
proof -
  assume a: "2 ^ 1024 \<le> n"
  then have "(2::nat) ^ 1024 \<le> nat n" by (simp add: le_nat_iff)
  from fl_of_nat_overflow [OF this] a show ?thesis by (simp add: int_to_float_def)
qed

lemma fl_dyadic_int:
  assumes "\<bar>d\<bar> < 2 ^ 53" and "- 1074 \<le> j" and "j \<le> 971"
  shows "fl (of_int d * pow2 j) = Fin (of_int d * pow2 j)"
proof (cases "0 \<le> d")
  case True
  then have "nat d < 2 ^ 53" using assms(1) by (simp add: nat_less_iff)
  from fl_dyadic_exact [OF this assms(2,3)] True show ?thesis by simp
next
  case False
  then have "nat (- d) < 2 ^ 53" using assms(1) by (simp add: nat_less_iff)
  from fl_dyadic_exact [OF this assms(2,3)] False
  have "fl (of_int (- d) * pow2 j) = Fin (of_int (- d) * pow2 j)" by simp
  then have "fl (- (of_int d * pow2 j)) = Fin (- (of_int d * pow2 j))" by simp
  then show ?thesis unfolding fl_minus by (cases "fl (of_int d * pow2 j)") simp_all
qed

lemma grid_sub:
  assumes "m < 2 ^ 53" and "n < 2 ^ 53" and "- 1074 \<le> j" and "j \<le> 971"
  shows "fsub (Fin (of_nat m * pow2 j)) (Fin (of_nat n * pow2 j))
         = Fin (of_int (int m - int n) * pow2 j)"
proof -
  have "\<bar>int m - int n\<bar> < 2 ^ 53" using assms(1,2) by simp
  from fl_dyadic_int [OF this assms(3,4)] show ?thesis
    by (simp add: fsub_def algebra_simps)
qed

lemma grid_sum:
  assumes "m1 < 2 ^ 53" and "m2 < 2 ^ 53" and "m3 < 2 ^ 53" and "- 1074 \<le> j" and "j \<le> 971"
  shows "fadd (fsub (Fin (of_nat m1 * pow2 j)) (Fin (of_nat m2 * pow2 j)))
              (fsub (Fin (of_nat m2 * pow2 j)) (Fin (of_nat m3 * pow2 j)))
         = Fin (of_int (int m1 - int m3) * pow2 j)"
proof -
  have "\<bar>int m1 - int m3\<bar> < 2 ^ 53" using assms(1,3) by simp
  from fl_dyadic_int [OF this assms(4,5)] show ?thesis
    unfolding grid_sub [OF assms(1,2,4,5)] grid_sub [OF assms(2,3,4,5)]
    by (simp add: algebra_simps)
qed
section \<open>Properties\<close>

lemma lstrip0_zeros: "lstrip0 (replicate n CHR ''0'' @ s) = lstrip0 s"
  by (induction n) (simp_all add: lstrip0_def)

lemma startswith_zeros:
  assumes "startswith s (replicate n CHR ''0'')"
  shows "int n \<le> int (length s) - int (length (lstrip0 s))"
proof -
  from assms have tk: "take n s = replicate n CHR ''0''"
    by (simp add: startswith_def)
  have len: "n \<le> length s"
  proof -
    have "length (take n s) = n" using tk by simp
    then show ?thesis by simp
  qed
  have "s = replicate n CHR ''0'' @ drop n s"
    using tk append_take_drop_id [of n s] by simp
  then have "lstrip0 s = lstrip0 (drop n s)"
    using lstrip0_zeros [of n "drop n s"] by simp
  moreover have "length (lstrip0 (drop n s)) \<le> length (drop n s)"
    unfolding lstrip0_def by (rule length_dropWhile_le)
  ultimately have "length (lstrip0 s) \<le> length s - n"
    by simp
  with len show ?thesis by linarith
qed

lemma mine_loop_result_aux:
  assumes "mine_loop clock bc p k n shown = Some y"
  shows "case y of
           Inl err \<Rightarrow> True
         | Inr (bc', h, shown', k') \<Rightarrow>
             \<exists>b. bc' = bc\<lparr>chain := chain bc @ [b]\<rparr> \<and> h = hash b \<and> startswith (hash b) p
               \<and> chain bc \<noteq> []
               \<and> index b = int (length (chain bc))
               \<and> previous_hash b = PStr (hash (last (chain bc)))"
  using assms
proof (induction rule: mine_loop.raw_induct [rotated 1, consumes 1])
  case (1 loop clock bc p k n shown y)
  show ?case
  proof (cases "chain bc = []")
    case True
    with 1(2) show ?thesis
      by (auto simp: last_block_def)
  next
    case False
    define pb where "pb = Block (int (length (chain bc))) n (PStr (hash (last (chain bc)))) (clock k)"
    show ?thesis
    proof (cases "to_table bc (Some pb)")
      case (Inl err)
      with 1(2) False show ?thesis
        by (auto simp: last_block_def pb_def Let_def)
    next
      case (Inr t)
      show ?thesis
      proof (cases "startswith (hash pb) p")
        case True
        with 1(2) False Inr
        have "y = Inr (bc\<lparr>chain := chain bc @ [pb]\<rparr>, hash pb, shown @ [t], Suc k)"
          by (simp add: last_block_def pb_def Let_def)
        moreover have "index pb = int (length (chain bc))"
          and "previous_hash pb = PStr (hash (last (chain bc)))"
          by (simp_all add: pb_def Block_def)
        ultimately show ?thesis
          using True False by auto
      next
        case nomatch: False
        with 1(2) False Inr have "loop clock bc p (Suc k) (n + 1) (shown @ [t]) = Some y"
          by (simp add: last_block_def pb_def Let_def)
        from 1(1) [OF this] show ?thesis .
      qed
    qed
  qed
qed

lemma mine_loop_result:
  assumes "mine_loop clock bc p k n shown = Some (Inr (bc', h, shown', k'))"
  shows "\<exists>b. bc' = bc\<lparr>chain := chain bc @ [b]\<rparr> \<and> h = hash b \<and> startswith (hash b) p
           \<and> chain bc \<noteq> []
           \<and> index b = int (length (chain bc))
           \<and> previous_hash b = PStr (hash (last (chain bc)))"
  using mine_loop_result_aux [OF assms] by simp


lemma block_difficulty_nonneg: "0 \<le> block_difficulty b"
proof -
  have "length (lstrip0 (hash b)) \<le> length (hash b)"
    unfolding lstrip0_def by (rule length_dropWhile_le)
  then show ?thesis by (simp add: block_difficulty_def)
qed

lemma difficulty_cases:
  assumes "difficulty bc = Inr d"
  shows "(length (chain bc) < 3 \<and> d = 1)
       \<or> (3 \<le> length (chain bc) \<and> chain bc \<noteq> []
           \<and> (d = block_difficulty (last (chain bc)) + 1
              \<or> d = block_difficulty (last (chain bc)) - 1
              \<or> d = block_difficulty (last (chain bc))))"
proof (cases "length (chain bc) < 3")
  case True
  with assms show ?thesis by (simp add: difficulty_def)
next
  case False
  then have ne: "chain bc \<noteq> []" by auto
  then have "chain bc ! (length (chain bc) - 1) = last (chain bc)"
    by (simp add: last_conv_nth)
  with assms False ne show ?thesis
    by (auto simp: difficulty_def Let_def split: sum.splits if_splits)
qed

lemma difficulty_lower_bound:
  assumes "difficulty bc = Inr d"
  shows "- 1 \<le> d"
  using difficulty_cases [OF assms] block_difficulty_nonneg [of "last (chain bc)"] by auto

lemma to_table_ok:
  assumes "difficulty bc = Inr d"
  shows "\<exists>t. to_table bc nb = Inr t"
  using assms by (simp add: to_table_def Let_def)

lemma mine_loop_empty_prefix:
  assumes "chain bc \<noteq> []" and "difficulty bc = Inr d"
  shows "\<exists>t. mine_loop clock bc [] k n shown =
           Some (Inr (bc\<lparr>chain := chain bc
                        @ [Block (int (length (chain bc))) n (PStr (hash (last (chain bc)))) (clock k)]\<rparr>,
                      hash (Block (int (length (chain bc))) n (PStr (hash (last (chain bc)))) (clock k)),
                      shown @ [t], Suc k))"
proof -
  define pb where "pb = Block (int (length (chain bc))) n (PStr (hash (last (chain bc)))) (clock k)"
  obtain t where t: "to_table bc (Some pb) = Inr t"
    using to_table_ok [OF assms(2)] by blast
  have "mine_loop clock bc [] k n shown =
          Some (Inr (bc\<lparr>chain := chain bc @ [pb]\<rparr>, hash pb, shown @ [t], Suc k))"
    by (subst mine_loop.simps) (simp add: last_block_def assms(1) pb_def [symmetric] t startswith_def)
  then show ?thesis unfolding pb_def by blast
qed

lemma fmul_commute: "fmul x y = fmul y x"
  by (cases x; cases y) (simp_all add: mult.commute)

lemma difficulty_last_three:
  assumes "3 \<le> length (chain bc)"
    and "int_to_float (target_seconds_per_block bc) = Inr target"
  shows "difficulty bc =
           Inr (let lastb = last (chain bc);
                    t1 = timestamp lastb;
                    t2 = timestamp (last (butlast (chain bc)));
                    t3 = timestamp (last (butlast (butlast (chain bc))));
                    avg = fdiv2 (fadd (fsub t1 t2) (fsub t2 t3))
                in if flt avg (fmul (Fin (1 / 2)) target) then block_difficulty lastb + 1
                   else if flt (fmul (Fin (3 / 2)) target) avg then block_difficulty lastb - 1
                   else block_difficulty lastb)"
proof -
  let ?n = "length (chain bc)"
  have ne: "chain bc \<noteq> []" "butlast (chain bc) \<noteq> []" "butlast (butlast (chain bc)) \<noteq> []"
    using assms(1) by (auto simp: length_0_conv [symmetric] simp del: length_0_conv)
  have l1: "last (chain bc) = chain bc ! (?n - 1)"
    using ne by (simp add: last_conv_nth)
  have l2: "last (butlast (chain bc)) = chain bc ! (?n - 2)"
    using ne assms(1) by (simp add: last_conv_nth nth_butlast numeral_2_eq_2)
  have l3: "last (butlast (butlast (chain bc))) = chain bc ! (?n - 3)"
    using ne assms(1) by (simp add: last_conv_nth nth_butlast numeral_3_eq_3)
  show ?thesis
    using assms
    by (simp add: difficulty_def Let_def l1 l2 l3 avg_time_to_mine_def fmul_commute [of target])
qed


lemma linked_genesis: "linked (chain (Blockchain target now))"
  by (simp add: linked_def Blockchain_def Block_def)

lemma linked_append:
  assumes "linked bs" and "index b = int (length bs)"
    and "previous_hash b = PStr (hash (last bs))"
  shows "linked (bs @ [b])"
proof -
  from assms(1) have ne: "bs \<noteq> []" by (simp add: linked_def)
  have idx: "index ((bs @ [b]) ! i) = int i" if "i < length (bs @ [b])" for i
  proof (cases "i < length bs")
    case True
    with assms(1) show ?thesis by (simp add: linked_def nth_append)
  next
    case False
    with that have "i = length bs" by simp
    with assms(2) show ?thesis by simp
  qed
  have lnk: "previous_hash ((bs @ [b]) ! i) = PStr (hash ((bs @ [b]) ! (i - 1)))"
    if "1 \<le> i" "i < length (bs @ [b])" for i
  proof (cases "i < length bs")
    case True
    then have "i - 1 < length bs" by simp
    with True assms(1) that show ?thesis by (simp add: linked_def nth_append)
  next
    case False
    with that have i: "i = length bs" by simp
    with ne have "(bs @ [b]) ! (i - 1) = last bs"
      by (simp add: nth_append last_conv_nth)
    with i assms(3) show ?thesis by simp
  qed
  from assms(1) ne have "nonce ((bs @ [b]) ! 0) = 0"
    by (simp add: linked_def nth_append)
  with idx lnk show ?thesis
    unfolding linked_def by blast
qed

lemma mine_appends:
  assumes "mine clock k bc = Some (Inr (bc', h, shown, k'))"
  shows "\<exists>b. bc' = bc\<lparr>chain := chain bc @ [b]\<rparr> \<and> chain bc \<noteq> []
           \<and> index b = int (length (chain bc))
           \<and> previous_hash b = PStr (hash (last (chain bc)))"
proof -
  from assms obtain p where "mine_loop clock bc p k 0 [] = Some (Inr (bc', h, shown, k'))"
    by (auto simp: mine_def split: sum.splits)
  from mine_loop_result [OF this] show ?thesis by blast
qed

lemma reachable_linked:
  assumes "reachable clock target k bc"
  shows "linked (chain bc)"
  using assms
proof (induction rule: reachable.induct)
  case constructed
  show ?case by (rule linked_genesis)
next
  case (mined k bc bc' h shown k')
  from mine_appends [OF mined.hyps(2)] obtain b where
    "bc' = bc\<lparr>chain := chain bc @ [b]\<rparr>" "index b = int (length (chain bc))"
    "previous_hash b = PStr (hash (last (chain bc)))"
    by blast
  with linked_append [OF mined.IH] show ?case by simp
qed

lemma difficulty_same_sum:
  assumes "3 \<le> length (chain bc)" and "3 \<le> length (chain bc')"
    and "target_seconds_per_block bc = target_seconds_per_block bc'"
    and "last (chain bc) = last (chain bc')"
    and "fadd (fsub (timestamp (last (chain bc))) (timestamp (last (butlast (chain bc)))))
              (fsub (timestamp (last (butlast (chain bc))))
                    (timestamp (last (butlast (butlast (chain bc))))))
         = fadd (fsub (timestamp (last (chain bc'))) (timestamp (last (butlast (chain bc')))))
              (fsub (timestamp (last (butlast (chain bc'))))
                    (timestamp (last (butlast (butlast (chain bc'))))))"
  shows "difficulty bc = difficulty bc'"
proof -
  define S where "S = (\<lambda>c :: blockchain. fadd (fsub (timestamp (last (chain c)))
                                    (timestamp (last (butlast (chain c)))))
                              (fsub (timestamp (last (butlast (chain c))))
                                    (timestamp (last (butlast (butlast (chain c)))))))"
  have eq: "difficulty c =
      (case int_to_float (target_seconds_per_block c) of
         Inl err \<Rightarrow> Inl err
       | Inr t \<Rightarrow>
           if flt (fdiv2 (S c)) (fmul t (Fin (1 / 2)))
           then Inr (block_difficulty (last (chain c)) + 1)
           else if flt (fmul t (Fin (3 / 2))) (fdiv2 (S c))
           then Inr (block_difficulty (last (chain c)) - 1)
           else Inr (block_difficulty (last (chain c))))"
    if "3 \<le> length (chain c)" for c
  proof (cases "int_to_float (target_seconds_per_block c)")
    case (Inl err)
    with that show ?thesis by (simp add: difficulty_def Let_def)
  next
    case (Inr t)
    from difficulty_last_three [OF that Inr] Inr show ?thesis
      by (simp add: Let_def S_def fmul_commute [of t])
  qed
  have s: "S bc = S bc'" unfolding S_def by (rule assms(5))
  show ?thesis
    unfolding eq [OF assms(1)] eq [OF assms(2)]
    by (simp only: assms(3,4) s)
qed

text \<open>The properties leave the store as it is; a run only adds objects.\<close>

lemma Block_hash_store: "snd (Block_hash self s) = s"
  by (simp add: Block_hash_def)

lemma Block_hash_value: "fst (Block_hash self s) = hash (objects s ! self)"
  by (simp add: Block_hash_def hash_def)

lemma Block_difficulty_store: "snd (Block_difficulty self s) = s"
  by (simp add: Block_difficulty_def Block_hash_def)

lemma Block_difficulty_value:
  "fst (Block_difficulty self s) = block_difficulty (objects s ! self)"
  by (simp add: Block_difficulty_def Block_hash_def block_difficulty_def hash_def)

lemma run_objects:
  "run clock s s' \<Longrightarrow> self < length (objects s)
     \<Longrightarrow> self < length (objects s') \<and> objects s' ! self = objects s ! self"
proof (induction rule: run.induct)
  case (run_none s)
  then show ?case by simp
next
  case (run_init s s' i n p)
  then show ?case by (simp add: Block_init_def nth_append)
next
  case (run_hash s s' r)
  then show ?case by (simp add: Block_hash_store)
next
  case (run_difficulty s s' r)
  then show ?case by (simp add: Block_difficulty_store)
qed

lemma run_readings: "run clock s s' \<Longrightarrow> readings s \<le> readings s'"
  by (induction rule: run.induct)
     (simp_all add: Block_init_def Block_hash_store Block_difficulty_store)

lemma run_trans: "run clock s' s'' \<Longrightarrow> run clock s s' \<Longrightarrow> run clock s s''"
  by (induction rule: run.induct) (auto intro: run.intros)

section \<open>Evaluation of the example states\<close>

lemma floor_numeral_div: "\<lfloor>(numeral a :: rat) / numeral b\<rfloor> = numeral a div numeral b"
  using floor_divide_of_int_eq [of "numeral a" "numeral b", where ?'a = rat] by simp

lemma bit_length_numeral: "bit_length (numeral w) = Suc (bit_length (numeral w div 2))"
  by (subst bit_length.simps) simp

lemma bit_length_0: "bit_length 0 = 0"
  by (subst bit_length.simps) simp

lemma bit_length_1: "bit_length (Suc 0) = Suc 0"
  by (subst bit_length.simps) (simp add: bit_length_0)

lemmas float_eval =
  fl_numeral fl_neg_numeral fl_zero fl_one fsub_def int_to_float_def avg_time_to_mine_def

text \<open>
  The gaps of \<open>setback\<close>: \<open>1700000010 - t2\<close> needs 54 bits and loses the last one,
  \<open>t2 - 1700000000\<close> is exact, and so are their sum and its half.
\<close>

lemma fl_setback1: "fl (9007199296684029 / 8388608) = Fin (2251799824171007 / 2097152)"
proof -
  have b: "bit_length (nat \<lfloor>9007199296684029 / 8388608 :: rat\<rfloor>) = 31"
    by (simp add: floor_numeral_div bit_length_numeral bit_length_0 bit_length_1)
  have r: "round_half_even (9007199296684029 / 8388608 / pow2 (int 31 - 53)) = 4503599648342014"
    by (simp add: pow2_def round_half_even_def Let_def floor_numeral_div)
  have "(1::rat) \<le> 9007199296684029 / 8388608" by simp
  from fl_ge1 [OF this b] show ?thesis unfolding r by (simp add: pow2_def)
qed

lemma fl_setback2: "fl (9007199212797949 / 8388608) = Fin (9007199212797949 / 8388608)"
  using fl_dyadic_exact [of 9007199212797949 "- 23"] by (simp add: pow2_def)

lemma fl_setback3: "fl (83886079 / 8388608) = Fin (83886079 / 8388608)"
  using fl_dyadic_exact [of 83886079 "- 23"] by (simp add: pow2_def)

lemma fl_setback4: "fl (83886079 / 16777216) = Fin (83886079 / 16777216)"
  using fl_dyadic_exact [of 83886079 "- 24"] by (simp add: pow2_def)

lemma difficulty_steady:
  "difficulty steady = Inr (block_difficulty (Block 2 0 (PStr ''00'') (Fin 1700000010)))"
  by (simp add: steady_def difficulty_def float_eval Block_def)

lemma difficulty_setback:
  "difficulty setback = Inr (block_difficulty (Block 2 0 (PStr ''00'') (Fin 1700000010)) + 1)"
  by (simp add: setback_def difficulty_def float_eval Block_def fl_minus
        fl_setback1 fl_setback2 fl_setback3 fl_setback4)

text \<open>Unfolding of the digit recursions, on literals only.\<close>

lemma str_nat_numeral:
  "str_nat (numeral w) =
     (if numeral w < (10::nat) then [''0123456789'' ! numeral w]
      else str_nat (numeral w div 10) @ [''0123456789'' ! (numeral w mod 10)])"
  by (subst str_nat.simps) simp

lemma str_nat_0: "str_nat 0 = ''0''"
  by (subst str_nat.simps) simp

lemma str_nat_1: "str_nat (Suc 0) = ''1''"
  by (subst str_nat.simps) simp

lemma ndigits_numeral: "ndigits (numeral w) = Suc (ndigits (numeral w div 10))"
  by (subst ndigits.simps) simp

lemma ndigits_0: "ndigits 0 = 0"
  by (subst ndigits.simps) simp

lemma ndigits_1: "ndigits (Suc 0) = Suc 0"
  by (subst ndigits.simps) (simp add: ndigits_0)

lemma strip_zeros_numeral:
  "strip_zeros (numeral w) k =
     (if (numeral w :: nat) mod 10 = 0 then strip_zeros (numeral w div 10) (k + 1)
      else (numeral w, k))"
  by (subst strip_zeros.simps) simp

lemma strip_zeros_1: "strip_zeros (Suc 0) k = (Suc 0, k)"
  by (subst strip_zeros.simps) simp

lemma upt_1_18: "[Suc 0..<18] = [1, 2, 3, 4, 5, 6, 7, 8, 9, 10, 11, 12, 13, 14, 15, 16, 17]"
  by (simp add: upt_rec)

text \<open>
  Rewrite rules that evaluate one SHA-256 compression on literals: the definitions,
  list recursion, and binary arithmetic on numerals.
\<close>

lemma take_bit_numeral_One: "take_bit (numeral l) (numeral Num.One :: nat) = numeral Num.One"
  by simp

lemma drop_bit_numeral_One: "drop_bit (numeral l) (numeral Num.One :: nat) = 0"
  by simp

lemma schedule_numeral:
  "schedule (numeral k) win =
     next_word win # schedule (pred_numeral k) (next_word win # take 15 win)"
  by (simp add: numeral_eq_Suc)

lemmas sha_eval =
  compress_def sha_k_def schedule_numeral schedule.simps(1) next_word_def round_step.simps Let_def
  add32_def bsig0_def bsig1_def ch_def maj_def rotr_def not32_def ssig0_def ssig1_def
  foldl.simps list.map list.case prod.case rev.simps append.simps
  zip_Cons_Cons zip_Nil
  nth_Cons_numeral nth_Cons_0 take_Cons_numeral take_0 take_Nil
  numeral_plus_numeral add_num_simps numeral_plus_one one_plus_numeral one_add_one add_0 add_0_right
  numeral_times_numeral mult_num_simps mult_zero_right mult_1_right mult_zero_left mult_1
  pred_numeral_simps BitM.simps diff_nat_numeral diff_numeral_simps nat_numeral sub_num_simps
  diff_numeral_special nat_0 nat_1
  dbl_simps dbl_inc_simps dbl_dec_simps
  take_bit_numeral_bit0 take_bit_numeral_bit1 take_bit_numeral_1 take_bit_0 take_bit_of_0
  drop_bit_numeral_bit0 drop_bit_numeral_bit1 drop_bit_0 drop_bit_of_0 drop_bit_of_1 id_apply
  push_bit_numeral push_bit_0_id push_bit_of_0 push_bit_of_1
  numeral_and_num numeral_xor_num and_num.simps xor_num.simps option.case option.map
  and_zero_eq zero_and_eq xor.left_neutral xor.right_neutral
  numeral_One [symmetric] take_bit_numeral_One drop_bit_numeral_One of_bool_eq rel_simps
  if_True if_False power_numeral pow.simps sqr.simps

lemma str_float_pos:
  assumes "0 < r"
    and "shortest_digits r (floor_log10 r) [Suc 0..<18] = Some (m, k)"
    and "strip_zeros m k = (m', k')"
  shows "str_float (Fin r) = format_repr (str_nat m') (int (length (str_nat m')) + k')"
  using assms by (simp add: str_float_def Let_def)

section \<open>The claims\<close>

subsection \<open>Difficulty\<close>

text \<open>
  C5. With fewer than three blocks in the chain, \<^verbatim>\<open>Blockchain.difficulty\<close> returns exactly 1,
  whatever \<^verbatim>\<open>target_seconds_per_block\<close> is: the length test comes before any use of the
  target.
\<close>

theorem difficulty_bootstrap:
  "length (chain bc) < 3 \<Longrightarrow> difficulty bc = Inr 1"
  by (simp add: difficulty_def)

theorem difficulty_bootstrap_witness:
  "length (chain (Blockchain (10 ^ 400) (Fin 1700000000))) < 3
   \<and> difficulty (Blockchain (10 ^ 400) (Fin 1700000000)) = Inr 1"
  using difficulty_bootstrap [of "Blockchain (10 ^ 400) (Fin 1700000000)"]
  by (simp add: Blockchain_def)

text \<open>
  C2, as stated, fails: with three blocks and the target \<open>10 ^ 400\<close> the product
  \<^verbatim>\<open>self.target_seconds_per_block * 0.5\<close> cannot be formed, because the \<^verbatim>\<open>int\<close> is too large
  to convert to a \<^verbatim>\<open>float\<close>; \<^verbatim>\<open>Blockchain.difficulty\<close> raises \<^verbatim>\<open>OverflowError\<close> and returns
  none of the three values.
\<close>

theorem difficulty_overflow:
  "3 \<le> length (chain (hasty\<lparr>target_seconds_per_block := 10 ^ 400\<rparr>))
   \<and> difficulty (hasty\<lparr>target_seconds_per_block := 10 ^ 400\<rparr>) = Inl OverflowError"
proof -
  have "(2::int) ^ 1024 \<le> 10 ^ 400" by simp
  from int_to_float_overflow [OF this] show ?thesis
    by (simp add: hasty_def difficulty_def Let_def)
qed

text \<open>
  C2, amended. With at least three blocks and a target that converts to a \<^verbatim>\<open>float\<close>,
  and t1, t2, t3 the timestamps of the last, second-last and third-last block,
  \<^verbatim>\<open>avg = ((t1 - t2) + (t2 - t3)) / 2\<close> in float arithmetic: the difficulty is the last
  block's leading-zero count plus one when \<^verbatim>\<open>avg < 0.5 * target\<close>, minus one when
  \<^verbatim>\<open>avg > 1.5 * target\<close>, and the count itself otherwise. The products are those of the
  target converted to a float.
\<close>

theorem difficulty_retarget:
  assumes "3 \<le> length (chain bc)"
    and "int_to_float (target_seconds_per_block bc) = Inr target"
  shows "difficulty bc =
           Inr (let lastb = last (chain bc);
                    t1 = timestamp lastb;
                    t2 = timestamp (last (butlast (chain bc)));
                    t3 = timestamp (last (butlast (butlast (chain bc))));
                    avg = fdiv2 (fadd (fsub t1 t2) (fsub t2 t3))
                in if flt avg (fmul (Fin (1 / 2)) target) then block_difficulty lastb + 1
                   else if flt (fmul (Fin (3 / 2)) target) avg then block_difficulty lastb - 1
                   else block_difficulty lastb)"
  using assms by (rule difficulty_last_three)

theorem difficulty_retarget_witness:
  "3 \<le> length (chain hasty)
   \<and> int_to_float (target_seconds_per_block hasty) = Inr (Fin 10)
   \<and> difficulty hasty = Inr (block_difficulty (last (chain hasty)) + 1)"
proof -
  have len: "3 \<le> length (chain hasty)"
    by (simp add: hasty_def)
  have tgt: "int_to_float (target_seconds_per_block hasty) = Inr (Fin 10)"
    by (simp add: hasty_def float_eval)
  from difficulty_retarget [OF len tgt] len tgt show ?thesis
    by (simp add: hasty_def Block_def float_eval)
qed

text \<open>
  C8. Three blocks with timestamps 0, 1 and 20 and a target of 10 seconds: the average
  gap is 10, neither below 5 nor above 15, so the difficulty is the last block's
  leading-zero count, whatever the other fields of the blocks are.
\<close>

theorem difficulty_holds_steady_0_1_20:
  "difficulty \<lparr>chain = [b0\<lparr>timestamp := Fin 0\<rparr>, b1\<lparr>timestamp := Fin 1\<rparr>,
                         b2\<lparr>timestamp := Fin 20\<rparr>],
               target_seconds_per_block = 10\<rparr>
   = Inr (block_difficulty (b2\<lparr>timestamp := Fin 20\<rparr>))"
  by (simp add: difficulty_def float_eval)

text \<open>
  C10, as stated, fails: float subtraction rounds. \<open>setback\<close> is \<open>steady\<close> with the
  second-last timestamp replaced by \<open>626258181 + 3 / 2 ^ 23\<close>, a float and a time of
  day in 1989. The gap \<open>1700000010 - t2\<close> then needs 54 bits and is rounded down by
  \<open>2 ^ -23\<close>, the average comes out as \<open>5 - 2 ^ -24\<close> instead of 5, below half the
  target, and the difficulty is one more than in \<open>steady\<close>, which has the same last
  block, the same third-last timestamp and the same target.
\<close>

theorem difficulty_depends_on_middle_timestamp:
  "3 \<le> length (chain steady) \<and> 3 \<le> length (chain setback)
   \<and> target_seconds_per_block steady = target_seconds_per_block setback
   \<and> last (chain steady) = last (chain setback)
   \<and> timestamp (last (butlast (butlast (chain steady))))
       = timestamp (last (butlast (butlast (chain setback))))
   \<and> chain setback
       = (chain steady)[1 := (chain steady ! 1)\<lparr>timestamp := Fin (626258181 + 3 / 2 ^ 23)\<rparr>]
   \<and> difficulty steady \<noteq> difficulty setback"
proof -
  have "difficulty steady \<noteq> difficulty setback"
    unfolding difficulty_steady difficulty_setback by simp
  then show ?thesis
    by (simp add: steady_def setback_def Block_def)
qed

text \<open>
  C10, amended. Two chains of at least three blocks with the same target, the same last
  block and the same third-last timestamp have the same difficulty whenever the
  timestamps involved (last, third-last and both second-last ones) lie on one binary
  grid: each is \<open>m * 2 ^ j\<close> for the same exponent \<open>j\<close> (from -1074 to 971) and a natural
  number \<open>m\<close> below \<open>2 ^ 53\<close>. Every float from \<open>2 ^ 30\<close> up to \<open>2 ^ 31\<close>, that is every
  clock reading from January 2004 to January 2038, is on the grid with \<open>j = -22\<close>. On a
  common grid both gaps and their sum are computed without rounding.
\<close>

theorem difficulty_on_common_grid:
  assumes "3 \<le> length (chain bc)" and "3 \<le> length (chain bc')"
    and "target_seconds_per_block bc = target_seconds_per_block bc'"
    and "last (chain bc) = last (chain bc')"
    and "timestamp (last (butlast (butlast (chain bc))))
         = timestamp (last (butlast (butlast (chain bc'))))"
    and "- 1074 \<le> j" and "j \<le> 971"
    and "timestamp (last (chain bc)) = Fin (of_nat m1 * pow2 j)" and "m1 < 2 ^ 53"
    and "timestamp (last (butlast (chain bc))) = Fin (of_nat m2 * pow2 j)" and "m2 < 2 ^ 53"
    and "timestamp (last (butlast (chain bc'))) = Fin (of_nat m2' * pow2 j)" and "m2' < 2 ^ 53"
    and "timestamp (last (butlast (butlast (chain bc)))) = Fin (of_nat m3 * pow2 j)"
    and "m3 < 2 ^ 53"
  shows "difficulty bc = difficulty bc'"
proof -
  have t1': "timestamp (last (chain bc')) = Fin (of_nat m1 * pow2 j)"
    using assms(4,8) by simp
  have t3': "timestamp (last (butlast (butlast (chain bc')))) = Fin (of_nat m3 * pow2 j)"
    using assms(5,14) by simp
  show ?thesis
    by (rule difficulty_same_sum [OF assms(1-4)])
       (simp only: assms(8,10,14) t1' t3' assms(12)
          grid_sum [OF assms(9,11,15,6,7)] grid_sum [OF assms(9,13,15,6,7)])
qed

theorem difficulty_on_common_grid_witness:
  "3 \<le> length (chain steady) \<and> 3 \<le> length (chain steady')
   \<and> chain steady' = (chain steady)[1 := (chain steady ! 1)\<lparr>timestamp := Fin 1700000007\<rparr>]
   \<and> difficulty steady = difficulty steady'"
proof -
  have "difficulty steady = difficulty steady'"
    by (rule difficulty_on_common_grid
          [where j = 0 and ?m1.0 = 1700000010 and ?m2.0 = 1700000005
             and m2' = 1700000007 and ?m3.0 = 1700000000])
       (simp_all add: steady_def steady'_def Block_def pow2_def)
  then show ?thesis
    by (simp add: steady_def steady'_def Block_def)
qed

subsection \<open>Block hash\<close>

text \<open>
  C7. Let a block be constructed by \<^verbatim>\<open>Block(i, n, p)\<close>, which reads the clock once, and
  let the program go on in any way: further blocks constructed (each reading the clock
  again), hashes and leading-zero counts evaluated. At every later moment
  \<^verbatim>\<open>hash\<close> of that block is the SHA-256 digest of the four values stored by the
  constructor, the timestamp being the clock reading taken then; evaluating it leaves
  every object and the clock as they are; a second evaluation at any still later moment
  returns the identical string; and the attributes of the block are still those the
  constructor stored.
\<close>

theorem hash_pure:
  assumes "Block_init clock i n p s0 = (self, s)"
    and "run clock s s'" and "run clock s' s''"
  shows "fst (Block_hash self s') = hash (Block i n p (clock (readings s0)))
         \<and> snd (Block_hash self s') = s'
         \<and> fst (Block_hash self s'') = fst (Block_hash self s')
         \<and> objects s'' ! self = Block i n p (clock (readings s0))
         \<and> readings s = Suc (readings s0)"
proof -
  have self: "self = length (objects s0)" and s: "s = snd (Block_init clock i n p s0)"
    using assms(1) by (simp_all add: Block_init_def)
  have lt: "self < length (objects s)" unfolding self s by (simp add: Block_init_def)
  have b: "objects s ! self = Block i n p (clock (readings s0))"
    unfolding self s by (simp add: Block_init_def Block_def)
  have b': "objects s' ! self = Block i n p (clock (readings s0))"
    using run_objects [OF assms(2) lt] b by simp
  have b'': "objects s'' ! self = Block i n p (clock (readings s0))"
    using run_objects [OF run_trans [OF assms(3,2)] lt] b by simp
  have r: "readings s = Suc (readings s0)" unfolding s by (simp add: Block_init_def)
  show ?thesis
    by (simp only: Block_hash_value Block_hash_store b' b'' r simp_thms)
qed

theorem hash_pure_witness:
  "Block_init demo_clock 0 0 (PInt 0) \<lparr>objects = [], readings = 0\<rparr> = (0, store1)
   \<and> run demo_clock store1 store2
   \<and> run demo_clock store2 (snd (Block_difficulty 1 store2))
   \<and> fst (Block_hash 0 store2) = hash (Block 0 0 (PInt 0) (Fin 1700000000))
   \<and> fst (Block_hash 0 (snd (Block_difficulty 1 store2))) = fst (Block_hash 0 store2)
   \<and> readings store2 = 2"
proof -
  have i: "Block_init demo_clock 0 0 (PInt 0) \<lparr>objects = [], readings = 0\<rparr> = (0, store1)"
    by (simp add: store1_def Block_init_def)
  have r1: "run demo_clock store1 store2"
    unfolding store2_def by (rule run_init) (rule run_none)
  have r2: "run demo_clock store2 (snd (Block_difficulty 1 store2))"
    by (rule run_difficulty) (rule run_none)
  from hash_pure [OF i r1 r2] i r1 r2 show ?thesis
    by (simp add: demo_clock_def store2_def store1_def Block_init_def)
qed

end
